theory Spec2Isabelle
  imports Complex_Main
begin

section \<open>LA Stock Watch: ranking, enrichment and validation\<close>

text \<open>
  A shallow embedding of the data-processing core of \<^verbatim>\<open>build.py\<close> (the weekly-change
  variant) and \<^verbatim>\<open>build_top25.py\<close> (the Top-25 variant).

  Numbers. Python prices, percentages and market caps are floats or ints. They are embedded
  as exact rationals (\<^typ>\<open>rat\<close>): the order, the sign tests and the branch structure of the
  code are kept, the representation error of binary floating point (and NaN, infinity) is
  not modelled.
\<close>

subsection \<open>Python values\<close>

text \<open>A value read from a quote dict: \<^verbatim>\<open>None\<close> or a number.\<close>

datatype pyval = PyNone | Num rat

text \<open>Python truthiness: \<^verbatim>\<open>None\<close> and \<^verbatim>\<open>0\<close> are falsy.\<close>

fun truthy :: "pyval \<Rightarrow> bool" where
  "truthy PyNone = False"
| "truthy (Num v) = (v \<noteq> 0)"

text \<open>\<^verbatim>\<open>d.get(key, default)\<close>: a key of a dict is absent (\<open>None\<close>) or bound to a value.\<close>

definition get :: "pyval option \<Rightarrow> pyval \<Rightarrow> pyval" where
  "get field dflt = (case field of None \<Rightarrow> dflt | Some v \<Rightarrow> v)"

text \<open>\<^verbatim>\<open>v or 0\<close>: the value when it is truthy, else \<^verbatim>\<open>0\<close>; always a number.\<close>

fun or_0 :: "pyval \<Rightarrow> rat" where
  "or_0 PyNone = 0"
| "or_0 (Num v) = v"

text \<open>
  Python's built-in \<^verbatim>\<open>round(x, ndigits)\<close> rounds half to even; on exact rationals:
\<close>

definition round_half_even :: "rat \<Rightarrow> int" where
  "round_half_even x =
     (let f = \<lfloor>x\<rfloor>; d = x - of_int f
      in if d < 1 / 2 then f
         else if 1 / 2 < d then f + 1
         else if even f then f else f + 1)"

definition py_round :: "rat \<Rightarrow> nat \<Rightarrow> rat" where
  "py_round x ndigits = of_int (round_half_even (x * 10 ^ ndigits)) / 10 ^ ndigits"

datatype py_error = TypeError | ValueError

subsection \<open>Data model\<close>

text \<open>
  A curated company (an entry of the companies JSON file); the keys the code subscripts
  are all present.
\<close>

record company =
  c_ticker :: string
  c_name :: string
  c_city :: string
  c_county :: string

text \<open>
  A quote dict as \<^verbatim>\<open>fetch_quotes\<close> builds it. \<^verbatim>\<open>"symbol"\<close> is always set there; every
  other key may be absent (\<open>None\<close>), or bound to \<^verbatim>\<open>None\<close> or a number.
\<close>

record quote =
  q_symbol :: string
  q_price :: "pyval option"
  q_week_ago_price :: "pyval option"
  q_yearHigh :: "pyval option"
  q_yearLow :: "pyval option"
  q_marketCap :: "pyval option"
  q_pe :: "pyval option"
  q_volume :: "pyval option"

text \<open>
  The enriched dict. \<open>stock\<close> holds the keys both variants write; the weekly-change variant
  adds \<^verbatim>\<open>"volume"\<close>, the Top-25 variant \<^verbatim>\<open>"county"\<close> and \<^verbatim>\<open>"yahoo_url"\<close>.
\<close>

record stock =
  rank :: int
  name :: string
  ticker :: string
  city :: string
  price :: rat
  change_pct :: rat
  year_high :: pyval
  year_low :: pyval
  market_cap :: pyval
  pe :: pyval

record weekly_stock = stock +
  volume :: pyval

record top25_stock = stock +
  county :: string
  yahoo_url :: string

subsection \<open>Price history (\<^verbatim>\<open>build.py\<close>)\<close>

text \<open>
  The JSON object held by \<^verbatim>\<open>PRICE_HISTORY_FILE\<close>, with the two keys the code reads and
  writes; a key may be absent. The file itself is absent (\<open>None\<close>) or holds one object.
  \<^verbatim>\<open>json.dump\<close> and \<^verbatim>\<open>json.load\<close> are taken as storing and returning the object.
\<close>

record history_json =
  saved_at :: "string option"
  prices :: "(string \<rightharpoonup> rat) option"

type_synonym history_file = "history_json option"

definition load_price_history :: "history_file \<Rightarrow> (string \<rightharpoonup> rat)" where
  "load_price_history file =
     (case file of
        Some data \<Rightarrow> (case prices data of Some p \<Rightarrow> p | None \<Rightarrow> Map.empty)
      | None \<Rightarrow> Map.empty)"

text \<open>\<open>build_date_iso\<close> is \<^verbatim>\<open>build_date.isoformat()\<close>. The file is overwritten.\<close>

definition save_price_history :: "(string \<rightharpoonup> rat) \<Rightarrow> string \<Rightarrow> history_file \<Rightarrow> history_file" where
  "save_price_history prices' build_date_iso file =
     Some \<lparr>saved_at = Some build_date_iso, prices = Some prices'\<rparr>"

subsection \<open>Weekly-change variant: \<^verbatim>\<open>build_rankings\<close>\<close>

text \<open>\<^verbatim>\<open>{c["ticker"]: c for c in companies}\<close>: a later company overwrites an earlier one.\<close>

definition company_map :: "company list \<Rightarrow> (string \<rightharpoonup> company)" where
  "company_map companies = fold (\<lambda>c m. m(c_ticker c \<mapsto> c)) companies Map.empty"

text \<open>
  The week-over-week change of one quote, before rounding (lines 224-235):
  \<^verbatim>\<open>if ticker in previous_prices and previous_prices[ticker] > 0: ... else: ...\<close>
\<close>

definition week_change :: "(string \<rightharpoonup> rat) \<Rightarrow> quote \<Rightarrow> rat \<Rightarrow> rat" where
  "week_change previous_prices q current_price =
     (let ticker = q_symbol q
      in if ticker \<in> dom previous_prices \<and> 0 < the (previous_prices ticker) then
           (let last_price = the (previous_prices ticker)
            in ((current_price - last_price) / last_price) * 100)
         else
           (case get (q_yearLow q) (Num 0) of
              Num low \<Rightarrow>
                if low \<noteq> 0 \<and> 0 < low
                then ((current_price - low) / low) * 100 / 52
                else 0
            | PyNone \<Rightarrow> 0))"

text \<open>The dict appended for a quote whose ticker is a known company (lines 237-251).\<close>

definition enriched_entry :: "(string \<rightharpoonup> rat) \<Rightarrow> company \<Rightarrow> quote \<Rightarrow> weekly_stock" where
  "enriched_entry previous_prices meta q =
     (let current_price = or_0 (get (q_price q) (Num 0))
      in \<lparr>rank = 0,
          name = c_name meta,
          ticker = q_symbol q,
          city = c_city meta,
          price = current_price,
          change_pct = py_round (week_change previous_prices q current_price) 2,
          year_high = get (q_yearHigh q) (Num 0),
          year_low = get (q_yearLow q) (Num 0),
          market_cap = get (q_marketCap q) (Num 0),
          pe = get (q_pe q) PyNone,
          volume = get (q_volume q) (Num 0)\<rparr>)"

text \<open>
  One iteration of \<^verbatim>\<open>for q in quotes\<close> (lines 215-251) on the pair
  \<open>(enriched, current_prices)\<close>; a quote of an unknown ticker is skipped.
\<close>

definition enrich_step ::
  "(string \<rightharpoonup> company) \<Rightarrow> (string \<rightharpoonup> rat) \<Rightarrow> quote
   \<Rightarrow> weekly_stock list \<times> (string \<rightharpoonup> rat) \<Rightarrow> weekly_stock list \<times> (string \<rightharpoonup> rat)" where
  "enrich_step cmap previous_prices q acc =
     (case cmap (q_symbol q) of
        None \<Rightarrow> acc
      | Some meta \<Rightarrow>
          (fst acc @ [enriched_entry previous_prices meta q],
           (snd acc)(q_symbol q \<mapsto> or_0 (get (q_price q) (Num 0)))))"

text \<open>Lines 209-251: the enriched dicts in creation order, and \<open>current_prices\<close>.\<close>

definition enrich :: "company list \<Rightarrow> quote list \<Rightarrow> (string \<rightharpoonup> rat)
   \<Rightarrow> weekly_stock list \<times> (string \<rightharpoonup> rat)" where
  "enrich companies quotes previous_prices =
     fold (enrich_step (company_map companies) previous_prices) quotes ([], Map.empty)"

text \<open>
  The ranking (lines 253-264) mutates dicts that several lists share: \<open>gainers\<close> is a
  slice of \<open>enriched\<close> and \<open>losers\<close> a slice of a sorted copy, so all three hold
  references to the same dicts. The dicts therefore live in a store (a list; a
  reference is an index into it), and the three lists are lists of references.
\<close>

type_synonym ref = nat
type_synonym store = "weekly_stock list"

text \<open>\<^verbatim>\<open>for i, g in enumerate(refs, 1): g["rank"] = i\<close>\<close>

definition assign_ranks :: "ref list \<Rightarrow> store \<Rightarrow> store" where
  "assign_ranks refs h =
     fold (\<lambda>(i, g) h'. h'[g := (h' ! g)\<lparr>rank := int i\<rparr>]) (enumerate 1 refs) h"

text \<open>
  Lines 253-264 on a store of freshly enriched dicts. Python's sort is stable, and
  with \<^verbatim>\<open>reverse=True\<close> equal keys still keep their original order: it is the stable
  sort by the negated key.
\<close>

definition rank_by_change :: "store \<Rightarrow> ref list \<times> ref list \<times> ref list \<times> store" where
  "rank_by_change h0 =
     (let enriched = sort_key (\<lambda>x. - change_pct (h0 ! x)) [0..<length h0];
          gainers = take 25 enriched;
          h1 = assign_ranks gainers h0;
          losers = take 25 (sort_key (\<lambda>x. change_pct (h1 ! x)) enriched);
          h2 = assign_ranks losers h1
      in (gainers, losers, enriched, h2))"

text \<open>
  \<^verbatim>\<open>build_rankings\<close> returns \<open>gainers, losers, enriched, current_prices\<close>; the model
  returns the final store with them.
\<close>

definition build_rankings :: "company list \<Rightarrow> quote list \<Rightarrow> (string \<rightharpoonup> rat)
   \<Rightarrow> ref list \<times> ref list \<times> ref list \<times> (string \<rightharpoonup> rat) \<times> store" where
  "build_rankings companies quotes previous_prices =
     (let (h0, current_prices) = enrich companies quotes previous_prices;
          (gainers, losers, enriched, h) = rank_by_change h0
      in (gainers, losers, enriched, current_prices, h))"

text \<open>The rank fields of a list of references, read through the store.\<close>

definition ranks_of :: "store \<Rightarrow> ref list \<Rightarrow> int list" where
  "ranks_of h refs = map (\<lambda>x. rank (h ! x)) refs"

definition changes_of :: "store \<Rightarrow> ref list \<Rightarrow> rat list" where
  "changes_of h refs = map (\<lambda>x. change_pct (h ! x)) refs"

text \<open>
  Lines 413-418 of \<^verbatim>\<open>main\<close>: the two spotlights are chosen, then two \<^verbatim>\<open>print\<close> calls
  subscript them. Subscripting \<^verbatim>\<open>None\<close> raises \<^verbatim>\<open>TypeError\<close>; the printed text is not
  modelled, its evaluation is.
\<close>

definition getitem :: "store \<Rightarrow> ref option \<Rightarrow> (weekly_stock \<Rightarrow> 'a) \<Rightarrow> py_error + 'a" where
  "getitem h obj key = (case obj of None \<Rightarrow> Inl TypeError | Some x \<Rightarrow> Inr (key (h ! x)))"

definition main_spotlight :: "store \<Rightarrow> ref list \<Rightarrow> ref list \<Rightarrow> py_error + (ref option \<times> ref option)" where
  "main_spotlight h gainers losers =
     (let spotlight_gainer = (if gainers \<noteq> [] then Some (gainers ! 0) else None);
          spotlight_loser = (if losers \<noteq> [] then Some (losers ! 0) else None)
      in case getitem h spotlight_gainer name of
           Inl e \<Rightarrow> Inl e
         | Inr _ \<Rightarrow>
             (case getitem h spotlight_loser name of
                Inl e \<Rightarrow> Inl e
              | Inr _ \<Rightarrow> Inr (spotlight_gainer, spotlight_loser)))"

subsection \<open>Top-25 variant: \<^verbatim>\<open>build_enriched_data\<close>, \<^verbatim>\<open>find_spotlight_stocks\<close>\<close>

text \<open>\<^verbatim>\<open>{q["symbol"]: q for q in quotes}\<close>: a later quote overwrites an earlier one.\<close>

definition quote_map :: "quote list \<Rightarrow> (string \<rightharpoonup> quote)" where
  "quote_map quotes = fold (\<lambda>q m. m(q_symbol q \<mapsto> q)) quotes Map.empty"

text \<open>The 7-day change of one quote, before rounding (lines 141-147).\<close>

definition week_change_top25 :: "quote \<Rightarrow> rat \<Rightarrow> rat" where
  "week_change_top25 q current_price =
     (case get (q_week_ago_price q) PyNone of
        Num week_ago_price \<Rightarrow>
          if week_ago_price \<noteq> 0 \<and> 0 < week_ago_price
          then ((current_price - week_ago_price) / week_ago_price) * 100
          else 0
      | PyNone \<Rightarrow> 0)"

text \<open>The dict appended for a company that has a quote (lines 139-162).\<close>

definition top25_entry :: "company \<Rightarrow> quote \<Rightarrow> top25_stock" where
  "top25_entry c q =
     (let current_price = or_0 (get (q_price q) (Num 0))
      in \<lparr>rank = 0,
          name = c_name c,
          ticker = c_ticker c,
          city = c_city c,
          price = current_price,
          change_pct = py_round (week_change_top25 q current_price) 2,
          year_high = get (q_yearHigh q) (Num 0),
          year_low = get (q_yearLow q) (Num 0),
          market_cap = get (q_marketCap q) (Num 0),
          pe = get (q_pe q) PyNone,
          county = c_county c,
          yahoo_url = ''https://finance.yahoo.com/quote/'' @ c_ticker c @ ''/''\<rparr>)"

text \<open>
  Lines 133-162: \<^verbatim>\<open>for company in companies\<close>, skipping a company without a quote.
  Every dict is a fresh object held by one list only, so no store is needed here.
\<close>

definition enrich_top25 :: "company list \<Rightarrow> quote list \<Rightarrow> top25_stock list" where
  "enrich_top25 companies quotes =
     List.map_filter
       (\<lambda>c. case quote_map quotes (c_ticker c) of
               None \<Rightarrow> None
             | Some q \<Rightarrow> Some (top25_entry c q))
       companies"

text \<open>\<^verbatim>\<open>for i, stock in enumerate(enriched, 1): stock["rank"] = i\<close> on distinct dicts.\<close>

definition assign_ranks_top25 :: "top25_stock list \<Rightarrow> top25_stock list" where
  "assign_ranks_top25 enriched = map (\<lambda>(i, s). s\<lparr>rank := int i\<rparr>) (enumerate 1 enriched)"

definition build_enriched_data :: "company list \<Rightarrow> quote list \<Rightarrow> top25_stock list" where
  "build_enriched_data companies quotes =
     assign_ranks_top25
       (sort_key (\<lambda>x. - or_0 (market_cap x)) (enrich_top25 companies quotes))"

definition find_spotlight_stocks :: "'a stock_scheme list \<Rightarrow> 'a stock_scheme option \<times> 'a stock_scheme option" where
  "find_spotlight_stocks enriched =
     (let sorted_by_change = sort_key (\<lambda>x. - change_pct x) enriched;
          gainer = (if sorted_by_change \<noteq> [] then Some (sorted_by_change ! 0) else None);
          loser = (if sorted_by_change \<noteq> [] then Some (last sorted_by_change) else None)
      in (gainer, loser))"

subsection \<open>Top-25 variant: \<^verbatim>\<open>validate_data\<close>\<close>

definition MIN_MARKET_CAP :: rat where "MIN_MARKET_CAP = 1000000000"
definition MAX_MARKET_CAP :: rat where "MAX_MARKET_CAP = 500000000000"
definition MAX_WEEKLY_CHANGE :: rat where "MAX_WEEKLY_CHANGE = 60"

text \<open>
  A log line: one constructor for each string the validator can append, with the values
  the string is formatted from (the rendering of numbers as text is not modelled).
  \<^item> \<open>TickersFetchedOK n\<close>: \<^verbatim>\<open>"Tickers fetched: {n}/25 OK"\<close>
  \<^item> \<open>TickersFetchedFailed n\<close>: \<^verbatim>\<open>"Tickers fetched: {n}/25 FAILED"\<close>
  \<^item> \<open>Missing ts\<close>: \<^verbatim>\<open>"  Missing: {', '.join(ts)}"\<close>
  \<^item> \<open>PriceRangeOK lo hi\<close>: \<^verbatim>\<open>"Price range: ${lo:.2f} - ${hi:.2f} OK"\<close>
  \<^item> \<open>PriceRangeFailed\<close>: \<^verbatim>\<open>"Price range: Some prices are zero or negative FAILED"\<close>
  \<^item> \<open>MarketCapRangeOK lo hi\<close>: \<^verbatim>\<open>"Market cap range: ${lo:.1f}B - ${hi:.1f}B OK"\<close>
  \<^item> \<open>MarketCapRangeWarning lo hi\<close>:
    \<^verbatim>\<open>"Market cap range: ${lo:.1f}B - ${hi:.1f}B WARNING (outside expected)"\<close>
  \<^item> \<open>ExtremeMover t c\<close>: \<^verbatim>\<open>"Extreme mover: {t} ({c:+.1f}%) - flagged for review"\<close>
  \<^item> \<open>NoExtremeMovers\<close>: \<^verbatim>\<open>"No extreme movers (within +/-60%)"\<close>
\<close>

datatype log_line =
    TickersFetchedOK nat
  | TickersFetchedFailed nat
  | Missing "string list"
  | PriceRangeOK rat rat
  | PriceRangeFailed
  | MarketCapRangeOK rat rat
  | MarketCapRangeWarning rat rat
  | ExtremeMover string rat
  | NoExtremeMovers

text \<open>\<^verbatim>\<open>min\<close> and \<^verbatim>\<open>max\<close> of a list raise \<^verbatim>\<open>ValueError\<close> on the empty list.\<close>

fun py_min :: "rat list \<Rightarrow> py_error + rat" where
  "py_min [] = Inl ValueError"
| "py_min (x # xs) = Inr (fold min xs x)"

fun py_max :: "rat list \<Rightarrow> py_error + rat" where
  "py_max [] = Inl ValueError"
| "py_max (x # xs) = Inr (fold max xs x)"

text \<open>The validator's state: \<open>(passed, log)\<close>. Each check maps the state to the next one.\<close>

type_synonym vstate = "bool \<times> log_line list"

text \<open>Check 1: all 25 tickers fetched (lines 203-211).\<close>

definition check1 :: "'a stock_scheme list \<Rightarrow> string list \<Rightarrow> vstate \<Rightarrow> vstate" where
  "check1 enriched failed_tickers st =
     (let fetched = length enriched
      in if fetched = 25 then (fst st, snd st @ [TickersFetchedOK fetched])
         else (False,
               snd st @ [TickersFetchedFailed fetched]
                 @ (if failed_tickers \<noteq> [] then [Missing failed_tickers] else [])))"

text \<open>
  Check 2: all prices positive (lines 213-219). \<^verbatim>\<open>all(...)\<close> holds of the empty list,
  and then \<^verbatim>\<open>min(prices)\<close> raises.
\<close>

definition check2 :: "'a stock_scheme list \<Rightarrow> vstate \<Rightarrow> py_error + vstate" where
  "check2 enriched st =
     (let prices = map price enriched
      in if list_all (\<lambda>p. 0 < p) prices then
           (case py_min prices of
              Inl e \<Rightarrow> Inl e
            | Inr lo \<Rightarrow>
                (case py_max prices of
                   Inl e \<Rightarrow> Inl e
                 | Inr hi \<Rightarrow> Inr (fst st, snd st @ [PriceRangeOK lo hi])))
         else Inr (False, snd st @ [PriceRangeFailed]))"

text \<open>
  Check 3: market caps in the expected range (lines 221-230). \<open>caps\<close> keeps the truthy
  market caps only; \<^verbatim>\<open>if caps:\<close> guards \<^verbatim>\<open>min\<close> and \<^verbatim>\<open>max\<close>.
\<close>

definition caps_of :: "'a stock_scheme list \<Rightarrow> rat list" where
  "caps_of enriched = map or_0 (filter truthy (map market_cap enriched))"

definition check3 :: "'a stock_scheme list \<Rightarrow> vstate \<Rightarrow> vstate" where
  "check3 enriched st =
     (case caps_of enriched of
        [] \<Rightarrow> st
      | c # cs \<Rightarrow>
          (let min_cap = fold min cs c;
               max_cap = fold max cs c;
               cap_ok = (MIN_MARKET_CAP \<le> min_cap \<and> max_cap \<le> MAX_MARKET_CAP)
           in if cap_ok
              then (fst st, snd st @ [MarketCapRangeOK (min_cap / 10 ^ 9) (max_cap / 10 ^ 9)])
              else (fst st, snd st @ [MarketCapRangeWarning (min_cap / 10 ^ 9) (max_cap / 10 ^ 9)])))"

text \<open>Check 4: flag extreme movers (lines 232-238).\<close>

definition check4 :: "'a stock_scheme list \<Rightarrow> vstate \<Rightarrow> vstate" where
  "check4 enriched st =
     (let extreme_movers = filter (\<lambda>s. MAX_WEEKLY_CHANGE < \<bar>change_pct s\<bar>) enriched
      in if extreme_movers \<noteq> []
         then (fst st, snd st @ map (\<lambda>s. ExtremeMover (ticker s) (change_pct s)) extreme_movers)
         else (fst st, snd st @ [NoExtremeMovers]))"

definition validate_data :: "'a stock_scheme list \<Rightarrow> string list \<Rightarrow> py_error + vstate" where
  "validate_data enriched failed_tickers =
     (case check2 enriched (check1 enriched failed_tickers (True, [])) of
        Inl e \<Rightarrow> Inl e
      | Inr st \<Rightarrow> Inr (check4 enriched (check3 enriched st)))"


subsection \<open>Example data\<close>

definition ex_company :: "string \<Rightarrow> company" where
  "ex_company t = \<lparr>c_ticker = t, c_name = t, c_city = ''Irvine'', c_county = ''Orange''\<rparr>"

definition ex_quote :: "string \<Rightarrow> rat \<Rightarrow> pyval \<Rightarrow> rat \<Rightarrow> pyval \<Rightarrow> quote" where
  "ex_quote t p w low cap =
     \<lparr>q_symbol = t, q_price = Some (Num p), q_week_ago_price = Some w,
      q_yearHigh = Some (Num 0), q_yearLow = Some (Num low), q_marketCap = Some cap,
      q_pe = Some PyNone, q_volume = Some (Num 0)\<rparr>"

definition ex_weekly :: "string \<Rightarrow> int \<Rightarrow> rat \<Rightarrow> rat \<Rightarrow> rat \<Rightarrow> weekly_stock" where
  "ex_weekly t r p c low =
     \<lparr>rank = r, name = t, ticker = t, city = ''Irvine'', price = p, change_pct = c,
      year_high = Num 0, year_low = Num low, market_cap = Num 0, pe = PyNone, volume = Num 0\<rparr>"

definition ex_stock :: "string \<Rightarrow> rat \<Rightarrow> rat \<Rightarrow> pyval \<Rightarrow> stock" where
  "ex_stock t p c cap =
     \<lparr>rank = 0, name = t, ticker = t, city = ''Irvine'', price = p, change_pct = c,
      year_high = Num 0, year_low = Num 0, market_cap = cap, pe = PyNone\<rparr>"


definition ex_run_zero_cap :: "stock list" where
  "ex_run_zero_cap = [ex_stock ''A'' 10 1 (Num 0), ex_stock ''B'' 20 2 (Num 5000000000)]"

section \<open>Properties\<close>

subsection \<open>Evaluation helpers\<close>


lemma upt2: "[0..<length [a, b]] = [0, 1]"
  by (simp add: upt_rec)


subsection \<open>Weekly-change variant\<close>




lemma fold_rank_length:
  "length (fold (\<lambda>(i, g) h'. h'[g := (h' ! g)\<lparr>rank := int i\<rparr>]) ps h) = length h"
  by (induction ps arbitrary: h) (auto split: prod.splits)

lemma length_assign_ranks: "length (assign_ranks refs h) = length h"
  by (simp add: assign_ranks_def fold_rank_length)

lemma fold_rank_field:
  assumes "\<And>s r. f (s\<lparr>rank := r\<rparr>) = f (s :: weekly_stock)"
  shows "x < length h \<Longrightarrow> f (fold (\<lambda>(i, g) h'. h'[g := (h' ! g)\<lparr>rank := int i\<rparr>]) ps h ! x) = f (h ! x)"
proof (induction ps arbitrary: h)
  case Nil
  then show ?case by simp
next
  case (Cons p ps)
  obtain i g where p: "p = (i, g)" by (cases p)
  have "f (h[g := (h ! g)\<lparr>rank := int i\<rparr>] ! x) = f (h ! x)"
    using Cons.prems assms by (cases "g = x") simp_all
  with Cons show ?case by (simp add: p)
qed

lemma assign_ranks_field:
  assumes "\<And>s r. f (s\<lparr>rank := r\<rparr>) = f (s :: weekly_stock)" and "x < length h"
  shows "f (assign_ranks refs h ! x) = f (h ! x)"
  unfolding assign_ranks_def using assms by (rule fold_rank_field)

lemma assign_ranks_change_pct: "x < length h \<Longrightarrow> change_pct (assign_ranks refs h ! x) = change_pct (h ! x)"
  by (rule assign_ranks_field) simp_all




lemma rank_by_change_parts:
  assumes "rank_by_change h0 = (gainers, losers, enriched, h)"
  shows "enriched = sort_key (\<lambda>x. - change_pct (h0 ! x)) [0..<length h0]"
    and "gainers = take 25 enriched"
    and "losers = take 25 (sort_key (\<lambda>x. change_pct (assign_ranks gainers h0 ! x)) enriched)"
    and "h = assign_ranks losers (assign_ranks gainers h0)"
  using assms by (auto simp: rank_by_change_def Let_def)


lemma rank_by_change_enriched:
  assumes "rank_by_change h0 = (gainers, losers, enriched, h)"
  shows "set enriched = {0..<length h0}" and "distinct enriched" and "length enriched = length h0"
  using rank_by_change_parts(1)[OF assms] by simp_all

lemma rank_by_change_subsets:
  assumes "rank_by_change h0 = (gainers, losers, enriched, h)"
  shows "set gainers \<subseteq> {0..<length h0}" and "set losers \<subseteq> {0..<length h0}"
proof -
  show "set gainers \<subseteq> {0..<length h0}"
    using rank_by_change_parts(2)[OF assms] rank_by_change_enriched(1)[OF assms]
      set_take_subset[of 25 enriched] by simp
  have "set losers \<subseteq> set enriched"
    using rank_by_change_parts(3)[OF assms]
      set_take_subset[of 25 "sort_key (\<lambda>x. change_pct (assign_ranks gainers h0 ! x)) enriched"]
    by simp
  then show "set losers \<subseteq> {0..<length h0}"
    using rank_by_change_enriched(1)[OF assms] by simp
qed

lemma rank_by_change_change_pct:
  assumes "rank_by_change h0 = (gainers, losers, enriched, h)" and "x < length h0"
  shows "change_pct (h ! x) = change_pct (h0 ! x)"
  using rank_by_change_parts(4)[OF assms(1)] assms(2)
  by (simp add: assign_ranks_change_pct length_assign_ranks)



lemma changes_of_final:
  assumes "rank_by_change h0 = (gainers, losers, enriched, h)" and "set refs \<subseteq> {0..<length h0}"
  shows "changes_of h refs = changes_of h0 refs"
  unfolding changes_of_def
proof (rule map_cong[OF refl])
  fix x assume "x \<in> set refs"
  with assms(2) have "x < length h0" by auto
  then show "change_pct (h ! x) = change_pct (h0 ! x)"
    by (rule rank_by_change_change_pct[OF assms(1)])
qed

lemma gainers_sorted:
  assumes "rank_by_change h0 = (gainers, losers, enriched, h)"
  shows "sorted_wrt (\<ge>) (changes_of h gainers)"
proof -
  have "sorted (map (\<lambda>x. - change_pct (h0 ! x)) enriched)"
    unfolding rank_by_change_parts(1)[OF assms] by (rule sorted_sort_key)
  then have "sorted_wrt (\<lambda>x y. change_pct (h0 ! y) \<le> change_pct (h0 ! x)) enriched"
    by (simp add: sorted_map)
  then have "sorted_wrt (\<lambda>x y. change_pct (h0 ! y) \<le> change_pct (h0 ! x)) gainers"
    unfolding rank_by_change_parts(2)[OF assms] by (rule sorted_wrt_take)
  then have "sorted_wrt (\<ge>) (changes_of h0 gainers)"
    by (simp add: changes_of_def sorted_wrt_map)
  then show ?thesis
    using changes_of_final[OF assms rank_by_change_subsets(1)[OF assms]] by simp
qed

lemma losers_sorted_h1:
  assumes "rank_by_change h0 = (gainers, losers, enriched, h)"
  shows "sorted (changes_of (assign_ranks gainers h0) losers)"
proof -
  let ?h1 = "assign_ranks gainers h0"
  have "sorted (map (\<lambda>x. change_pct (?h1 ! x)) (sort_key (\<lambda>x. change_pct (?h1 ! x)) enriched))"
    by (rule sorted_sort_key)
  then have "sorted_wrt (\<lambda>x y. change_pct (?h1 ! x) \<le> change_pct (?h1 ! y))
               (sort_key (\<lambda>x. change_pct (?h1 ! x)) enriched)"
    by (simp add: sorted_map)
  then have "sorted_wrt (\<lambda>x y. change_pct (?h1 ! x) \<le> change_pct (?h1 ! y)) losers"
    unfolding rank_by_change_parts(3)[OF assms] by (rule sorted_wrt_take)
  then show ?thesis
    by (simp add: changes_of_def sorted_map)
qed

lemma changes_of_h1:
  assumes "set refs \<subseteq> {0..<length h0}"
  shows "changes_of (assign_ranks gainers h0) refs = changes_of h0 refs"
  unfolding changes_of_def
  by (rule map_cong[OF refl]) (use assms in \<open>auto simp: assign_ranks_change_pct\<close>)

lemma losers_sorted:
  assumes "rank_by_change h0 = (gainers, losers, enriched, h)"
  shows "sorted (changes_of h losers)"
  using losers_sorted_h1[OF assms]
    changes_of_h1[OF rank_by_change_subsets(2)[OF assms], of gainers]
    changes_of_final[OF assms rank_by_change_subsets(2)[OF assms]]
  by simp


lemma sorted_key_head_le:
  assumes "sorted (map k ys)" and "ys \<noteq> []" and "z \<in> set ys"
  shows "k (ys ! 0) \<le> k z"
proof -
  obtain y ys' where ys: "ys = y # ys'" using assms(2) by (cases ys) auto
  show ?thesis using assms(1,3) by (auto simp: ys)
qed

lemma losers_head_min:
  assumes "rank_by_change h0 = (gainers, losers, enriched, h)" and "h0 \<noteq> []"
  shows "losers \<noteq> []"
    and "losers ! 0 < length h0"
    and "change_pct (h ! (losers ! 0)) = Min (change_pct ` set h0)"
proof -
  let ?k = "\<lambda>x. change_pct (assign_ranks gainers h0 ! x)"
  let ?ys = "sort_key ?k enriched"
  have len: "length ?ys = length h0"
    using rank_by_change_enriched(3)[OF assms(1)] by simp
  have ne: "?ys \<noteq> []"
  proof
    assume e: "?ys = []"
    have "length h0 = length ?ys" using len by (rule sym)
    also have "\<dots> = 0" unfolding e by simp
    finally show False using assms(2) by simp
  qed
  have l: "losers = take 25 ?ys" by (rule rank_by_change_parts(3)[OF assms(1)])
  show lne: "losers \<noteq> []" using ne by (simp add: l)
  have l0: "losers ! 0 = ?ys ! 0" using ne by (simp add: l)
  have "losers ! 0 \<in> set losers" using lne by (simp add: nth_mem)
  then show lt: "losers ! 0 < length h0"
    using rank_by_change_subsets(2)[OF assms(1)] by auto
  have setys: "set ?ys = {0..<length h0}"
    using rank_by_change_enriched(1)[OF assms(1)] by simp
  have srt: "sorted (map ?k ?ys)" by (rule sorted_sort_key)
  have le: "change_pct (h0 ! (losers ! 0)) \<le> change_pct s" if "s \<in> set h0" for s
  proof -
    from that have "\<exists>i. i < length h0 \<and> h0 ! i = s"
      by (simp only: in_set_conv_nth)
    then obtain i where i: "i < length h0" "s = h0 ! i" by blast
    then have "i \<in> set ?ys" using setys by simp
    from sorted_key_head_le[OF srt ne this] have "?k (losers ! 0) \<le> ?k i"
      by (simp add: l0)
    then show ?thesis using lt i by (simp add: assign_ranks_change_pct)
  qed
  have "change_pct (h0 ! (losers ! 0)) = Min (change_pct ` set h0)"
  proof (rule Min_eqI[symmetric])
    show "finite (change_pct ` set h0)" by simp
    show "change_pct (h0 ! (losers ! 0)) \<in> change_pct ` set h0"
      using lt by (simp add: nth_mem)
    show "\<And>y. y \<in> change_pct ` set h0 \<Longrightarrow> change_pct (h0 ! (losers ! 0)) \<le> y"
      using le by auto
  qed
  then show "change_pct (h ! (losers ! 0)) = Min (change_pct ` set h0)"
    using rank_by_change_change_pct[OF assms(1) lt] by simp
qed

text \<open>
  Claim C5. For every store of enriched dicts, the ranking (lines 253-264 of
  \<^verbatim>\<open>build_rankings\<close>) returns at most 25 gainers and at most 25 losers; read through
  the final store, the \<^verbatim>\<open>change_pct\<close> values of the gainers are non-increasing and
  those of the losers non-decreasing; and when the input is not empty, the first loser
  has the minimum \<^verbatim>\<open>change_pct\<close> of the input.
\<close>

theorem rank_by_change_sorted_top25:
  assumes "rank_by_change h0 = (gainers, losers, enriched, h)"
  shows "length gainers \<le> 25 \<and> length losers \<le> 25
       \<and> sorted_wrt (\<ge>) (changes_of h gainers)
       \<and> sorted (changes_of h losers)
       \<and> (h0 \<noteq> [] \<longrightarrow> losers \<noteq> [] \<and> change_pct (h ! (losers ! 0)) = Min (change_pct ` set h0))"
proof -
  have "length gainers \<le> 25"
    by (simp add: rank_by_change_parts(2)[OF assms])
  moreover have "length losers \<le> 25"
    by (simp add: rank_by_change_parts(3)[OF assms])
  moreover note gainers_sorted[OF assms] losers_sorted[OF assms]
  moreover have "h0 \<noteq> [] \<longrightarrow> losers \<noteq> [] \<and> change_pct (h ! (losers ! 0)) = Min (change_pct ` set h0)"
    using losers_head_min(1,3)[OF assms] by blast
  ultimately show ?thesis by blast
qed











text \<open>
  The theorem on a store of two dicts with changes 1 and 5.
\<close>

theorem rank_by_change_sorted_top25_witness:
  "rank_by_change [ex_weekly ''A'' 0 10 1 0, ex_weekly ''B'' 0 10 5 0] =
     ([1, 0], [0, 1], [1, 0], [ex_weekly ''A'' 1 10 1 0, ex_weekly ''B'' 2 10 5 0])
   \<and> changes_of [ex_weekly ''A'' 1 10 1 0, ex_weekly ''B'' 2 10 5 0] [1, 0] = [5, 1]
   \<and> changes_of [ex_weekly ''A'' 1 10 1 0, ex_weekly ''B'' 2 10 5 0] [0, 1] = [1, 5]
   \<and> sorted_wrt (\<ge>) (changes_of [ex_weekly ''A'' 1 10 1 0, ex_weekly ''B'' 2 10 5 0] [1, 0])
   \<and> sorted (changes_of [ex_weekly ''A'' 1 10 1 0, ex_weekly ''B'' 2 10 5 0] [0, 1])
   \<and> change_pct ([ex_weekly ''A'' 1 10 1 0, ex_weekly ''B'' 2 10 5 0] ! ([0, 1] ! 0))
       = Min (change_pct ` set [ex_weekly ''A'' 0 10 1 0, ex_weekly ''B'' 0 10 5 0])"
proof -
  have ex: "rank_by_change [ex_weekly ''A'' 0 10 1 0, ex_weekly ''B'' 0 10 5 0] =
     ([1, 0], [0, 1], [1, 0], [ex_weekly ''A'' 1 10 1 0, ex_weekly ''B'' 2 10 5 0])"
    unfolding rank_by_change_def assign_ranks_def Let_def upt2
    by (simp add: ex_weekly_def)
  have c: "changes_of [ex_weekly ''A'' 1 10 1 0, ex_weekly ''B'' 2 10 5 0] [1, 0] = [5, 1]"
    by (simp add: changes_of_def ex_weekly_def)
  have d: "changes_of [ex_weekly ''A'' 1 10 1 0, ex_weekly ''B'' 2 10 5 0] [0, 1] = [1, 5]"
    by (simp add: changes_of_def ex_weekly_def)
  have ne: "[ex_weekly ''A'' 0 10 1 0, ex_weekly ''B'' 0 10 5 0] \<noteq> []" by simp
  show ?thesis
    using ex c d rank_by_change_sorted_top25[OF ex] ne by blast
qed

subsection \<open>Rank assignment through the store\<close>

lemma fold_rank_notin:
  "x \<notin> snd ` set ps \<Longrightarrow>
     fold (\<lambda>(i, g) h'. h'[g := (h' ! g)\<lparr>rank := int i\<rparr>]) ps h ! x = h ! x"
  by (induction ps arbitrary: h) (auto split: prod.splits)

lemma fold_rank_dense:
  assumes "distinct refs" and "set refs \<subseteq> {0..<length h}" and "k < length refs"
  shows "rank (fold (\<lambda>(i, g) h'. h'[g := (h' ! g)\<lparr>rank := int i\<rparr>]) (enumerate n refs) h ! (refs ! k))
           = int (n + k)"
  using assms
proof (induction refs arbitrary: n h k)
  case Nil
  then show ?case by simp
next
  case (Cons r rs)
  let ?F = "\<lambda>(i, g) h'. h'[g := (h' ! g)\<lparr>rank := int i\<rparr>]"
  let ?h = "h[r := (h ! r)\<lparr>rank := int n\<rparr>]"
  have r: "r < length h" "r \<notin> set rs" "distinct rs" "set rs \<subseteq> {0..<length ?h}"
    using Cons.prems by auto
  show ?case
  proof (cases k)
    case 0
    have "r \<notin> snd ` set (enumerate (Suc n) rs)"
      using r(2) by (metis map_snd_enumerate set_map)
    then have "fold ?F (enumerate (Suc n) rs) ?h ! r = ?h ! r"
      by (rule fold_rank_notin)
    then show ?thesis using r(1) 0 by simp
  next
    case (Suc k')
    then have "k' < length rs" using Cons.prems(3) by simp
    from Cons.IH[OF r(3) r(4) this, of "Suc n"] show ?thesis
      by (simp add: Suc)
  qed
qed

lemma assign_ranks_dense:
  assumes "distinct refs" and "set refs \<subseteq> {0..<length h}"
  shows "ranks_of (assign_ranks refs h) refs = map int [1..<Suc (length refs)]"
proof (rule nth_equalityI)
  show "length (ranks_of (assign_ranks refs h) refs) = length (map int [1..<Suc (length refs)])"
    by (simp add: ranks_of_def del: upt_Suc)
next
  fix k assume "k < length (ranks_of (assign_ranks refs h) refs)"
  then have k: "k < length refs" by (simp add: ranks_of_def)
  from fold_rank_dense[OF assms k, of 1]
  show "ranks_of (assign_ranks refs h) refs ! k = map int [1..<Suc (length refs)] ! k"
    using k by (simp add: ranks_of_def assign_ranks_def nth_upt del: upt_Suc)
qed

lemma assign_ranks_other:
  "x \<notin> set refs \<Longrightarrow> assign_ranks refs h ! x = h ! x"
  unfolding assign_ranks_def
  by (rule fold_rank_notin) (metis map_snd_enumerate set_map)

text \<open>
  What holds of the weekly-change variant: the losers carry the ranks 1, 2, ... in the
  final store, and so do the gainers when no dict is in both lists.
\<close>

lemma losers_ranks_dense:
  assumes "rank_by_change h0 = (gainers, losers, enriched, h)"
  shows "ranks_of h losers = map int [1..<Suc (length losers)]"
proof -
  let ?h1 = "assign_ranks gainers h0"
  have d: "distinct losers"
    unfolding rank_by_change_parts(3)[OF assms]
    using rank_by_change_enriched(2)[OF assms] by (simp add: distinct_take)
  have s: "set losers \<subseteq> {0..<length ?h1}"
    using rank_by_change_subsets(2)[OF assms] by (simp add: length_assign_ranks)
  show ?thesis
    unfolding rank_by_change_parts(4)[OF assms] by (rule assign_ranks_dense[OF d s])
qed

lemma gainers_ranks_dense_if_disjoint:
  assumes "rank_by_change h0 = (gainers, losers, enriched, h)"
    and "set gainers \<inter> set losers = {}"
  shows "ranks_of h gainers = map int [1..<Suc (length gainers)]"
proof -
  let ?h1 = "assign_ranks gainers h0"
  have d: "distinct gainers"
    unfolding rank_by_change_parts(2)[OF assms(1)]
    using rank_by_change_enriched(2)[OF assms(1)] by (simp add: distinct_take)
  have s: "set gainers \<subseteq> {0..<length h0}"
    by (rule rank_by_change_subsets(1)[OF assms(1)])
  have "ranks_of h gainers = ranks_of ?h1 gainers"
    unfolding ranks_of_def rank_by_change_parts(4)[OF assms(1)]
  proof (rule map_cong[OF refl])
    fix x assume "x \<in> set gainers"
    with assms(2) have "x \<notin> set losers" by auto
    then show "rank (assign_ranks losers ?h1 ! x) = rank (?h1 ! x)"
      by (simp add: assign_ranks_other)
  qed
  then show ?thesis
    using assign_ranks_dense[OF d s] by simp
qed

text \<open>
  Claim C1 (rank fields of every produced list are 1, 2, ... after all rank
  assignments). The lemmas above and \<open>build_enriched_data_ranks\<close> below give it for the
  losers and for the Top-25 list. It fails for the gainers: both lists refer to the same
  dicts, and the losers' loop runs last. With two companies whose prices rose by 1% and
  10%, the gainers are \<open>[B, A]\<close> and the losers \<open>[A, B]\<close>; in the final store \<open>A\<close>
  has rank 1 and \<open>B\<close> rank 2, so the gainers list reads \<open>[2, 1]\<close>.
\<close>

theorem gainers_ranks_overwritten:
  "build_rankings [ex_company ''A'', ex_company ''B'']
     [ex_quote ''A'' 101 PyNone 55 (Num 0), ex_quote ''B'' 110 PyNone 55 (Num 0)]
     [''A'' \<mapsto> 100, ''B'' \<mapsto> 100]
   = ([1, 0], [0, 1], [1, 0], [''A'' \<mapsto> 101, ''B'' \<mapsto> 110],
      [ex_weekly ''A'' 1 101 1 55, ex_weekly ''B'' 2 110 10 55])
   \<and> ranks_of [ex_weekly ''A'' 1 101 1 55, ex_weekly ''B'' 2 110 10 55] [1, 0] = [2, 1]
   \<and> ranks_of [ex_weekly ''A'' 1 101 1 55, ex_weekly ''B'' 2 110 10 55] [0, 1] = [1, 2]"
proof -
  have e: "enrich [ex_company ''A'', ex_company ''B'']
     [ex_quote ''A'' 101 PyNone 55 (Num 0), ex_quote ''B'' 110 PyNone 55 (Num 0)]
     [''A'' \<mapsto> 100, ''B'' \<mapsto> 100]
     = ([ex_weekly ''A'' 0 101 1 55, ex_weekly ''B'' 0 110 10 55], [''A'' \<mapsto> 101, ''B'' \<mapsto> 110])"
    by (simp add: enrich_def enrich_step_def company_map_def ex_company_def ex_quote_def
        enriched_entry_def week_change_def get_def Let_def py_round_def round_half_even_def
        ex_weekly_def)
  have r: "rank_by_change [ex_weekly ''A'' 0 101 1 55, ex_weekly ''B'' 0 110 10 55]
     = ([1, 0], [0, 1], [1, 0], [ex_weekly ''A'' 1 101 1 55, ex_weekly ''B'' 2 110 10 55])"
    unfolding rank_by_change_def assign_ranks_def Let_def upt2
    by (simp add: ex_weekly_def)
  have b: "build_rankings [ex_company ''A'', ex_company ''B'']
     [ex_quote ''A'' 101 PyNone 55 (Num 0), ex_quote ''B'' 110 PyNone 55 (Num 0)]
     [''A'' \<mapsto> 100, ''B'' \<mapsto> 100]
   = ([1, 0], [0, 1], [1, 0], [''A'' \<mapsto> 101, ''B'' \<mapsto> 110],
      [ex_weekly ''A'' 1 101 1 55, ex_weekly ''B'' 2 110 10 55])"
    by (simp add: build_rankings_def e r)
  have g: "ranks_of [ex_weekly ''A'' 1 101 1 55, ex_weekly ''B'' 2 110 10 55] [1, 0] = [2, 1]"
    by (simp add: ranks_of_def ex_weekly_def)
  have l: "ranks_of [ex_weekly ''A'' 1 101 1 55, ex_weekly ''B'' 2 110 10 55] [0, 1] = [1, 2]"
    by (simp add: ranks_of_def ex_weekly_def)
  show ?thesis using b g l by blast
qed

subsection \<open>Spotlights\<close>

lemma sorted_key_last_ge:
  assumes "sorted (map k ys)" and "ys \<noteq> []" and "z \<in> set ys"
  shows "k z \<le> k (last ys)"
proof -
  have ys: "ys = butlast ys @ [last ys]" using assms(2) by simp
  have "sorted (map k (butlast ys @ [last ys]))" using assms(1) ys by simp
  then have "\<forall>x\<in>set (butlast ys). k x \<le> k (last ys)"
    by (simp add: sorted_append)
  moreover have "z \<in> set (butlast ys) \<or> z = last ys"
    using assms(3) ys by (metis Un_iff empty_iff empty_set set_ConsD set_append)
  ultimately show ?thesis by auto
qed

lemma find_spotlight_stocks_empty: "find_spotlight_stocks [] = (None, None)"
  by (simp add: find_spotlight_stocks_def)

lemma find_spotlight_stocks_nonempty:
  assumes "enriched \<noteq> []"
  shows "\<exists>gainer loser. find_spotlight_stocks enriched = (Some gainer, Some loser)
           \<and> gainer \<in> set enriched \<and> loser \<in> set enriched
           \<and> change_pct gainer = Max (change_pct ` set enriched)
           \<and> change_pct loser = Min (change_pct ` set enriched)"
proof -
  let ?k = "\<lambda>x. - change_pct x"
  let ?ys = "sort_key ?k enriched"
  have st: "set ?ys = set enriched" by simp
  have ne: "?ys \<noteq> []" using assms st by (metis set_empty)
  have srt: "sorted (map ?k ?ys)" by (rule sorted_sort_key)
  have g: "?ys ! 0 \<in> set enriched" using ne st by (metis length_greater_0_conv nth_mem)
  have l: "last ?ys \<in> set enriched" using ne st by (metis last_in_set)
  have gmax: "change_pct z \<le> change_pct (?ys ! 0)" if "z \<in> set enriched" for z
    using sorted_key_head_le[OF srt ne, of z] that by simp
  have lmin: "change_pct (last ?ys) \<le> change_pct z" if "z \<in> set enriched" for z
    using sorted_key_last_ge[OF srt ne, of z] that by simp
  have "change_pct (?ys ! 0) = Max (change_pct ` set enriched)"
    by (rule Max_eqI[symmetric]) (use g gmax in auto)
  moreover have "change_pct (last ?ys) = Min (change_pct ` set enriched)"
    by (rule Min_eqI[symmetric]) (use l lmin in auto)
  moreover have "find_spotlight_stocks enriched = (Some (?ys ! 0), Some (last ?ys))"
    using ne by (simp add: find_spotlight_stocks_def Let_def)
  ultimately show ?thesis using g l by blast
qed

lemma main_spotlight_nonempty:
  assumes "gainers \<noteq> []" and "losers \<noteq> []"
  shows "main_spotlight h gainers losers = Inr (Some (gainers ! 0), Some (losers ! 0))"
  using assms by (simp add: main_spotlight_def getitem_def Let_def)


subsection \<open>Top-25 enrichment\<close>

lemma assign_ranks_top25_length: "length (assign_ranks_top25 xs) = length xs"
  by (simp add: assign_ranks_top25_def)

lemma assign_ranks_top25_nth:
  "k < length xs \<Longrightarrow> assign_ranks_top25 xs ! k = (xs ! k)\<lparr>rank := int (1 + k)\<rparr>"
  by (simp add: assign_ranks_top25_def nth_enumerate_eq)










lemma build_enriched_data_ranks:
  "map rank (build_enriched_data companies quotes)
     = map int [1..<Suc (length (build_enriched_data companies quotes))]"
proof (rule nth_equalityI)
  show "length (map rank (build_enriched_data companies quotes))
      = length (map int [1..<Suc (length (build_enriched_data companies quotes))])"
    by (simp del: upt_Suc)
next
  fix i assume "i < length (map rank (build_enriched_data companies quotes))"
  then have i: "i < length (build_enriched_data companies quotes)" by simp
  then have "rank (build_enriched_data companies quotes ! i) = int (1 + i)"
    by (simp add: build_enriched_data_def assign_ranks_top25_length assign_ranks_top25_nth)
  then show "map rank (build_enriched_data companies quotes) ! i
      = map int [1..<Suc (length (build_enriched_data companies quotes))] ! i"
    using i by (simp add: nth_upt del: upt_Suc)
qed

subsection \<open>Validator\<close>

lemma fold_min_Min: "fold min cs (c :: rat) = Min (set (c # cs))"
  by (simp only: Min.set_eq_fold)

lemma fold_max_Max: "fold max cs (c :: rat) = Max (set (c # cs))"
  by (simp only: Max.set_eq_fold)


lemma check1_appends:
  "\<exists>ls. ls \<noteq> [] \<and> snd (check1 enriched failed_tickers st) = snd st @ ls"
  by (simp add: check1_def Let_def)


lemma check2_returns:
  assumes "enriched \<noteq> []"
  shows "\<exists>ls. ls \<noteq> [] \<and>
           check2 enriched st = Inr (fst st \<and> (\<forall>s\<in>set enriched. 0 < price s), snd st @ ls)"
proof -
  obtain s ss where e: "enriched = s # ss" using assms by (cases enriched) auto
  show ?thesis
    by (auto simp: check2_def e Let_def list_all_iff)
qed

lemma check2_no_cap_line:
  assumes "check2 enriched st = Inr st'"
  shows "MarketCapRangeWarning lo hi \<in> set (snd st') \<longleftrightarrow> MarketCapRangeWarning lo hi \<in> set (snd st)"
    and "MarketCapRangeOK lo hi \<in> set (snd st') \<longleftrightarrow> MarketCapRangeOK lo hi \<in> set (snd st)"
  using assms
  by (auto simp: check2_def Let_def split: if_splits sum.splits)

lemma check1_no_cap_line:
  "MarketCapRangeWarning lo hi \<in> set (snd (check1 enriched f st)) \<longleftrightarrow> MarketCapRangeWarning lo hi \<in> set (snd st)"
  "MarketCapRangeOK lo hi \<in> set (snd (check1 enriched f st)) \<longleftrightarrow> MarketCapRangeOK lo hi \<in> set (snd st)"
  by (auto simp: check1_def Let_def)

lemma check4_no_cap_line:
  "MarketCapRangeWarning lo hi \<in> set (snd (check4 enriched st)) \<longleftrightarrow> MarketCapRangeWarning lo hi \<in> set (snd st)"
  "MarketCapRangeOK lo hi \<in> set (snd (check4 enriched st)) \<longleftrightarrow> MarketCapRangeOK lo hi \<in> set (snd st)"
  by (auto simp: check4_def Let_def)


lemma check4_appends: "\<exists>ls. ls \<noteq> [] \<and> snd (check4 enriched st) = snd st @ ls"
  by (simp add: check4_def Let_def)


lemma check3_eq:
  "check3 enriched st =
     (if caps_of enriched = [] then st
      else (fst st, snd st @
             [if MIN_MARKET_CAP \<le> Min (set (caps_of enriched)) \<and> Max (set (caps_of enriched)) \<le> MAX_MARKET_CAP
              then MarketCapRangeOK (Min (set (caps_of enriched)) / 10 ^ 9) (Max (set (caps_of enriched)) / 10 ^ 9)
              else MarketCapRangeWarning (Min (set (caps_of enriched)) / 10 ^ 9) (Max (set (caps_of enriched)) / 10 ^ 9)]))"
proof (cases "caps_of enriched")
  case Nil
  then show ?thesis by (simp add: check3_def)
next
  case (Cons c cs)
  have "fold min cs c = Min (set (caps_of enriched))" "fold max cs c = Max (set (caps_of enriched))"
    unfolding Cons by (rule fold_min_Min, rule fold_max_Max)
  then show ?thesis
    by (simp add: check3_def Cons Let_def)
qed

lemma set_caps_of:
  "set (caps_of enriched) = {c. c \<noteq> 0 \<and> (\<exists>s\<in>set enriched. market_cap s = Num c)}"
proof -
  have "\<And>v. truthy v \<Longrightarrow> v = Num (or_0 v) \<and> or_0 v \<noteq> 0"
    by (case_tac v) simp_all
  then show ?thesis
    by (force simp: caps_of_def image_iff)
qed




lemma warning_of_out_of_band:
  assumes "s \<in> set enriched" and "market_cap s = Num c" and "c \<noteq> 0"
    and "c < MIN_MARKET_CAP \<or> MAX_MARKET_CAP < c"
  shows "\<exists>lo hi. MarketCapRangeWarning lo hi \<in> set (snd (check3 enriched st))"
proof -
  have c: "c \<in> set (caps_of enriched)"
    using assms(1,2,3) by (auto simp: set_caps_of)
  then have ne: "caps_of enriched \<noteq> []" by auto
  have "Min (set (caps_of enriched)) \<le> c" "c \<le> Max (set (caps_of enriched))"
    using c by simp_all
  with assms(4) have bad:
    "\<not> (MIN_MARKET_CAP \<le> Min (set (caps_of enriched)) \<and> Max (set (caps_of enriched)) \<le> MAX_MARKET_CAP)"
    by auto
  have "check3 enriched st =
          (fst st, snd st @ [MarketCapRangeWarning (Min (set (caps_of enriched)) / 10 ^ 9)
                                                   (Max (set (caps_of enriched)) / 10 ^ 9)])"
    by (subst check3_eq) (simp only: ne bad if_False)
  then have "MarketCapRangeWarning (Min (set (caps_of enriched)) / 10 ^ 9)
               (Max (set (caps_of enriched)) / 10 ^ 9) \<in> set (snd (check3 enriched st))"
    by simp
  then show ?thesis by blast
qed

lemma out_of_band_of_warning:
  assumes "MarketCapRangeWarning lo hi \<in> set (snd (check3 enriched st))"
    and "MarketCapRangeWarning lo hi \<notin> set (snd st)"
  shows "\<exists>s\<in>set enriched. \<exists>c. market_cap s = Num c \<and> c \<noteq> 0
           \<and> (c < MIN_MARKET_CAP \<or> MAX_MARKET_CAP < c)"
proof -
  let ?caps = "caps_of enriched"
  have ne: "?caps \<noteq> []"
    using assms by (auto simp: check3_eq split: if_splits)
  have bad: "\<not> (MIN_MARKET_CAP \<le> Min (set ?caps) \<and> Max (set ?caps) \<le> MAX_MARKET_CAP)"
    using assms ne by (auto simp: check3_eq split: if_splits)
  have "Min (set ?caps) \<in> set ?caps" "Max (set ?caps) \<in> set ?caps"
    using ne by simp_all
  then have "\<exists>c\<in>set ?caps. c < MIN_MARKET_CAP \<or> MAX_MARKET_CAP < c"
    using bad by (meson not_le)
  then show ?thesis
    unfolding set_caps_of by blast
qed

lemma cap_line_values:
  assumes "MarketCapRangeWarning lo hi \<in> set (snd (check3 enriched st))
           \<or> MarketCapRangeOK lo hi \<in> set (snd (check3 enriched st))"
    and "MarketCapRangeWarning lo hi \<notin> set (snd st)"
    and "MarketCapRangeOK lo hi \<notin> set (snd st)"
  shows "lo * 10 ^ 9 \<in> set (caps_of enriched) \<and> hi * 10 ^ 9 \<in> set (caps_of enriched)"
proof -
  let ?caps = "caps_of enriched"
  have ne: "?caps \<noteq> []"
    using assms by (auto simp: check3_eq split: if_splits)
  have "lo = Min (set ?caps) / 10 ^ 9 \<and> hi = Max (set ?caps) / 10 ^ 9"
    using assms ne by (auto simp: check3_eq split: if_splits)
  moreover have "Min (set ?caps) \<in> set ?caps" "Max (set ?caps) \<in> set ?caps"
    using ne by simp_all
  ultimately show ?thesis by simp
qed

lemma caps_of_filter:
  "caps_of (filter (\<lambda>s. truthy (market_cap s)) enriched) = caps_of enriched"
  by (simp add: caps_of_def filter_map o_def)



text \<open>
  Claim C10. In a log that \<^verbatim>\<open>validate_data\<close> returns, a WARNING line is present exactly
  when some entry has a market cap that is a number other than 0 and lies outside the
  band: an entry whose market cap is \<^verbatim>\<open>None\<close> or 0 never causes it. The two values of a
  market-cap line are never 0 and are (in units of $1B) market caps of entries. Check 3
  gives the same result on the list without the entries whose market cap is falsy.
\<close>

theorem zero_market_cap_excluded:
  assumes "validate_data enriched failed_tickers = Inr (passed, log_lines)"
  shows "((\<exists>lo hi. MarketCapRangeWarning lo hi \<in> set log_lines) \<longleftrightarrow>
            (\<exists>s\<in>set enriched. \<exists>c. market_cap s = Num c \<and> c \<noteq> 0
               \<and> (c < MIN_MARKET_CAP \<or> MAX_MARKET_CAP < c)))
       \<and> (\<forall>lo hi. MarketCapRangeWarning lo hi \<in> set log_lines \<or> MarketCapRangeOK lo hi \<in> set log_lines \<longrightarrow>
             lo \<noteq> 0 \<and> hi \<noteq> 0
             \<and> (\<exists>s\<in>set enriched. market_cap s = Num (lo * 10 ^ 9))
             \<and> (\<exists>s\<in>set enriched. market_cap s = Num (hi * 10 ^ 9)))
       \<and> (\<forall>st. check3 (filter (\<lambda>s. truthy (market_cap s)) enriched) st = check3 enriched st)"
proof -
  let ?st1 = "check1 enriched failed_tickers (True, [])"
  obtain st2 where st2: "check2 enriched ?st1 = Inr st2"
    and lg: "(passed, log_lines) = check4 enriched (check3 enriched st2)"
    using assms by (auto simp: validate_data_def split: sum.splits)
  have l: "log_lines = snd (check4 enriched (check3 enriched st2))"
    using lg by (metis snd_conv)
  have clean: "MarketCapRangeWarning lo hi \<notin> set (snd st2)" "MarketCapRangeOK lo hi \<notin> set (snd st2)" for lo hi
    using check2_no_cap_line[OF st2, of lo hi] by (simp_all add: check1_no_cap_line)
  have a: "(\<exists>lo hi. MarketCapRangeWarning lo hi \<in> set log_lines) \<longleftrightarrow>
            (\<exists>s\<in>set enriched. \<exists>c. market_cap s = Num c \<and> c \<noteq> 0
               \<and> (c < MIN_MARKET_CAP \<or> MAX_MARKET_CAP < c))"
    unfolding l check4_no_cap_line
    using warning_of_out_of_band[of _ enriched _ st2] out_of_band_of_warning[of _ _ enriched st2] clean(1)
    by blast
  have b: "lo \<noteq> 0 \<and> hi \<noteq> 0
             \<and> (\<exists>s\<in>set enriched. market_cap s = Num (lo * 10 ^ 9))
             \<and> (\<exists>s\<in>set enriched. market_cap s = Num (hi * 10 ^ 9))"
    if "MarketCapRangeWarning lo hi \<in> set log_lines \<or> MarketCapRangeOK lo hi \<in> set log_lines" for lo hi
  proof -
    have "lo * 10 ^ 9 \<in> set (caps_of enriched) \<and> hi * 10 ^ 9 \<in> set (caps_of enriched)"
      using that cap_line_values[of lo hi enriched st2] clean[of lo hi]
      unfolding l check4_no_cap_line by blast
    then show ?thesis
      unfolding set_caps_of by auto
  qed
  have c: "check3 (filter (\<lambda>s. truthy (market_cap s)) enriched) st = check3 enriched st" for st
    by (simp add: check3_def caps_of_filter)
  show ?thesis using a b c by blast
qed

text \<open>
  The theorem on two entries with market caps 0 and $5B: no WARNING line, and the
  reported range is 5 to 5.
\<close>

theorem zero_market_cap_excluded_witness:
  "validate_data ex_run_zero_cap []
     = Inr (False, [TickersFetchedFailed 2, PriceRangeOK 10 20, MarketCapRangeOK 5 5, NoExtremeMovers])
   \<and> \<not> (\<exists>s\<in>set ex_run_zero_cap. \<exists>c. market_cap s = Num c \<and> c \<noteq> 0
            \<and> (c < MIN_MARKET_CAP \<or> MAX_MARKET_CAP < c))
   \<and> \<not> (\<exists>lo hi. MarketCapRangeWarning lo hi
            \<in> set [TickersFetchedFailed 2, PriceRangeOK 10 20, MarketCapRangeOK 5 5, NoExtremeMovers])
   \<and> (\<exists>s\<in>set ex_run_zero_cap. market_cap s = Num (5 * 10 ^ 9))"
proof -
  have v: "validate_data ex_run_zero_cap []
     = Inr (False, [TickersFetchedFailed 2, PriceRangeOK 10 20, MarketCapRangeOK 5 5, NoExtremeMovers])"
    by code_simp
  have n: "\<not> (\<exists>s\<in>set ex_run_zero_cap. \<exists>c. market_cap s = Num c \<and> c \<noteq> 0
            \<and> (c < MIN_MARKET_CAP \<or> MAX_MARKET_CAP < c))"
    by (simp add: ex_run_zero_cap_def ex_stock_def MIN_MARKET_CAP_def MAX_MARKET_CAP_def)
  have ok: "MarketCapRangeOK 5 5
      \<in> set [TickersFetchedFailed 2, PriceRangeOK 10 20, MarketCapRangeOK 5 5, NoExtremeMovers]"
    by simp
  note z = zero_market_cap_excluded[OF v]
  from z n have "\<not> (\<exists>lo hi. MarketCapRangeWarning lo hi
            \<in> set [TickersFetchedFailed 2, PriceRangeOK 10 20, MarketCapRangeOK 5 5, NoExtremeMovers])"
    by blast
  moreover from z ok have "\<exists>s\<in>set ex_run_zero_cap. market_cap s = Num (5 * 10 ^ 9)"
    by blast
  ultimately show ?thesis using v n by blast
qed

text \<open>
  Claim C7, amended. On a non-empty list \<^verbatim>\<open>validate_data\<close> returns a pair. Checks 1, 2
  and 4 each append at least one line; check 3 appends one line when some entry has a
  truthy market cap, and no line otherwise.
\<close>

theorem validate_data_returns_nonempty:
  assumes "enriched \<noteq> []"
  shows "\<exists>st2 l1 l2 l3 l4.
           check2 enriched (check1 enriched failed_tickers (True, [])) = Inr st2
         \<and> validate_data enriched failed_tickers = Inr (check4 enriched (check3 enriched st2))
         \<and> snd (check1 enriched failed_tickers (True, [])) = l1 \<and> l1 \<noteq> []
         \<and> snd st2 = l1 @ l2 \<and> l2 \<noteq> []
         \<and> snd (check3 enriched st2) = l1 @ l2 @ l3
         \<and> length l3 = (if \<exists>s\<in>set enriched. truthy (market_cap s) then 1 else 0)
         \<and> snd (check4 enriched (check3 enriched st2)) = l1 @ l2 @ l3 @ l4 \<and> l4 \<noteq> []"
proof -
  let ?st1 = "check1 enriched failed_tickers (True, [])"
  obtain l1 where l1: "l1 \<noteq> []" "snd ?st1 = l1"
    using check1_appends[of enriched failed_tickers "(True, [])"] by auto
  obtain l2 where l2: "l2 \<noteq> []"
    "check2 enriched ?st1 = Inr (fst ?st1 \<and> (\<forall>s\<in>set enriched. 0 < price s), snd ?st1 @ l2)"
    using check2_returns[OF assms, of ?st1] by blast
  define st2 where "st2 = (fst ?st1 \<and> (\<forall>s\<in>set enriched. 0 < price s), snd ?st1 @ l2)"
  have c2: "check2 enriched ?st1 = Inr st2" by (simp add: st2_def l2(2))
  have s2: "snd st2 = l1 @ l2" by (simp add: st2_def l1(2))
  have caps: "(caps_of enriched = []) = (\<not> (\<exists>s\<in>set enriched. truthy (market_cap s)))"
    by (auto simp: caps_of_def filter_empty_conv)
  have "\<exists>l3. snd (check3 enriched st2) = snd st2 @ l3
           \<and> length l3 = (if \<exists>s\<in>set enriched. truthy (market_cap s) then 1 else 0)"
  proof (cases "caps_of enriched = []")
    case True
    then show ?thesis using caps by (simp add: check3_eq)
  next
    case False
    then show ?thesis using caps by (simp add: check3_eq)
  qed
  then obtain l3 where l3: "snd (check3 enriched st2) = snd st2 @ l3"
    "length l3 = (if \<exists>s\<in>set enriched. truthy (market_cap s) then 1 else 0)"
    by blast
  obtain l4 where l4: "l4 \<noteq> []"
    "snd (check4 enriched (check3 enriched st2)) = snd (check3 enriched st2) @ l4"
    using check4_appends[of enriched "check3 enriched st2"] by blast
  have v: "validate_data enriched failed_tickers = Inr (check4 enriched (check3 enriched st2))"
    by (simp add: validate_data_def c2)
  show ?thesis
    using c2 v l1 l2(1) s2 l3 l4 by (intro exI[of _ st2] exI[of _ l1] exI[of _ l2] exI[of _ l3] exI[of _ l4]) simp
qed

text \<open>
  The amended claim on a list of two entries.
\<close>

theorem validate_data_returns_nonempty_witness:
  "ex_run_zero_cap \<noteq> []
   \<and> (\<exists>st2 l1 l2 l3 l4.
           check2 ex_run_zero_cap (check1 ex_run_zero_cap [] (True, [])) = Inr st2
         \<and> validate_data ex_run_zero_cap [] = Inr (check4 ex_run_zero_cap (check3 ex_run_zero_cap st2))
         \<and> snd (check1 ex_run_zero_cap [] (True, [])) = l1 \<and> l1 \<noteq> []
         \<and> snd st2 = l1 @ l2 \<and> l2 \<noteq> []
         \<and> snd (check3 ex_run_zero_cap st2) = l1 @ l2 @ l3
         \<and> length l3 = (if \<exists>s\<in>set ex_run_zero_cap. truthy (market_cap s) then 1 else 0)
         \<and> snd (check4 ex_run_zero_cap (check3 ex_run_zero_cap st2)) = l1 @ l2 @ l3 @ l4 \<and> l4 \<noteq> [])"
proof -
  have ne: "ex_run_zero_cap \<noteq> []" by (simp add: ex_run_zero_cap_def)
  show ?thesis
    using ne validate_data_returns_nonempty[OF ne, of "[]"] by blast
qed

text \<open>
  Claim C7 as stated fails: on the empty list \<^verbatim>\<open>min(prices)\<close> raises \<^verbatim>\<open>ValueError\<close>; and
  on one entry whose market cap is \<^verbatim>\<open>None\<close> the log has three lines, none of them from
  check 3.
\<close>

theorem validate_data_counterexample:
  "validate_data ([] :: stock list) [] = Inl ValueError
   \<and> validate_data [ex_stock ''A'' 10 1 PyNone] []
       = Inr (False, [TickersFetchedFailed 1, PriceRangeOK 10 10, NoExtremeMovers])"
  by (simp add: validate_data_def check1_def check2_def check3_def check4_def caps_of_def
      ex_stock_def MAX_WEEKLY_CHANGE_def Let_def)

subsection \<open>Price history\<close>

text \<open>
  Claim C9. Loading after saving returns the mapping that was saved, whatever the file
  held before. (The text written by \<^verbatim>\<open>json.dump\<close> and its float notation are not
  modelled.)
\<close>

theorem price_history_round_trip:
  "load_price_history (save_price_history prices' build_date_iso file) = prices'"
  by (simp add: load_price_history_def save_price_history_def)

end
